theory Spec2Isabelle
  imports Complex_Main "HOL-Library.Log_Nat"
begin

section \<open>JavaScript numbers\<close>

text \<open>
  A JavaScript number is an IEEE 754 binary64 value: NaN, one of the two infinities, or a
  finite value \<open>m * 2 ^ e\<close> with \<open>\<bar>m\<bar> < 2 ^ 53\<close> and \<open>- 1074 \<le> e \<le> 971\<close>. The finite
  values are carried as exact rationals. The sign of zero is left out: the handler never
  divides by a computed value, and comparison, addition followed by halving and JSON output
  do not tell \<open>-0\<close> from \<open>0\<close>.
\<close>

datatype jsnum = NaN | PInf | NInf | Fin rat

definition pow2 :: "int \<Rightarrow> rat" where
  "pow2 e = 2 powi e"

text \<open>The integer nearest to \<open>x\<close>, a tie going to the even neighbour.\<close>

definition round_half_even :: "rat \<Rightarrow> int" where
  "round_half_even x =
     (let f = \<lfloor>x\<rfloor>; r = x - of_int f
      in if r < 1 / 2 then f else if 1 / 2 < r then f + 1
         else if even f then f else f + 1)"

text \<open>For \<open>0 < x\<close>, the exponent \<open>e\<close> with \<open>2 ^ e \<le> x < 2 ^ (e + 1)\<close>.\<close>

definition ilog2 :: "rat \<Rightarrow> int" where
  "ilog2 x = (case quotient_of x of (p, q) \<Rightarrow>
     (let d = bitlen p - bitlen q in if pow2 d \<le> x then d else d - 1))"

text \<open>
  Rounding of an exact result to binary64, to nearest with ties to even: 53 significant
  bits, the spacing never below \<open>2 ^ - 1074\<close> (subnormal range), and a rounded magnitude of
  \<open>2 ^ 1024\<close> or more becoming an infinity.
\<close>

definition round_magnitude :: "rat \<Rightarrow> rat" where
  "round_magnitude a =
     (let q = max (ilog2 a - 52) (- 1074)
      in of_int (round_half_even (a / pow2 q)) * pow2 q)"

definition rnd :: "rat \<Rightarrow> jsnum" where
  "rnd x =
     (if x = 0 then Fin 0
      else let y = round_magnitude \<bar>x\<bar>
           in if pow2 1024 \<le> y then (if 0 < x then PInf else NInf)
              else Fin (if 0 < x then y else - y))"

text \<open>The operator \<open>+\<close> on two numbers.\<close>

fun num_add :: "jsnum \<Rightarrow> jsnum \<Rightarrow> jsnum" where
  "num_add NaN y = NaN"
| "num_add x NaN = NaN"
| "num_add PInf NInf = NaN"
| "num_add NInf PInf = NaN"
| "num_add PInf y = PInf"
| "num_add x PInf = PInf"
| "num_add NInf y = NInf"
| "num_add x NInf = NInf"
| "num_add (Fin x) (Fin y) = rnd (x + y)"

text \<open>The quotient \<open>x / 2\<close> of a number by the literal \<open>2\<close>.\<close>

fun num_div2 :: "jsnum \<Rightarrow> jsnum" where
  "num_div2 NaN = NaN"
| "num_div2 PInf = PInf"
| "num_div2 NInf = NInf"
| "num_div2 (Fin x) = rnd (x / 2)"

text \<open>The comparisons \<open>x > y\<close>, \<open>x < y\<close>, \<open>x >= y\<close>, \<open>x <= y\<close>: all false when an operand is NaN.\<close>

fun num_gt :: "jsnum \<Rightarrow> jsnum \<Rightarrow> bool" where
  "num_gt NaN y = False"
| "num_gt x NaN = False"
| "num_gt NInf y = False"
| "num_gt x PInf = False"
| "num_gt PInf y = True"
| "num_gt x NInf = True"
| "num_gt (Fin x) (Fin y) = (y < x)"

definition num_lt :: "jsnum \<Rightarrow> jsnum \<Rightarrow> bool" where
  "num_lt x y = num_gt y x"

definition num_ge :: "jsnum \<Rightarrow> jsnum \<Rightarrow> bool" where
  "num_ge x y = (x \<noteq> NaN \<and> y \<noteq> NaN \<and> \<not> num_gt y x)"

definition num_le :: "jsnum \<Rightarrow> jsnum \<Rightarrow> bool" where
  "num_le x y = num_ge y x"

text \<open>The numeric literals of the handler denote the doubles nearest to their decimal value.\<close>

definition lit_0_85 :: jsnum where
  "lit_0_85 = rnd (85 / 100)"

definition lit_0_6 :: jsnum where
  "lit_0_6 = rnd (6 / 10)"


section \<open>JSON values and the operators applied to them\<close>

text \<open>
  What \<open>JSON.parse\<close> returns and what \<open>req.body\<close> holds. An object is the list of its own
  properties (distinct keys). A property read may give \<open>undefined\<close>.
\<close>

datatype json =
    JNull
  | JBool bool
  | JNum jsnum
  | JStr string
  | JArr "json list"
  | JObj "(string \<times> json) list"

datatype jsval = Undefined | Val json

datatype exn = TypeError | SyntaxError | EngineError

text \<open>
  The read \<open>v.k\<close> of a property that no prototype defines (\<open>confidence\<close>, \<open>logicScore\<close>):
  a TypeError on \<open>null\<close>, the own property of an object, \<open>undefined\<close> otherwise.
\<close>

fun get_prop :: "json \<Rightarrow> string \<Rightarrow> exn + jsval" where
  "get_prop JNull k = Inl TypeError"
| "get_prop (JObj kvs) k = Inr (case map_of kvs k of None \<Rightarrow> Undefined | Some v \<Rightarrow> Val v)"
| "get_prop v k = Inr Undefined"

text \<open>
  The conversions of the language that the repository does not define are parameters of the
  model: ToPrimitive of an array or object (a string, or a TypeError when the value shadows
  \<open>toString\<close>), Number to String, and String to Number.
\<close>

record js_runtime =
  object_to_primitive :: "json \<Rightarrow> string option"
  number_to_string :: "jsnum \<Rightarrow> string"
  string_to_number :: "string \<Rightarrow> jsnum"

datatype prim = PUndefined | PNull | PBool bool | PNum jsnum | PStr string

fun to_primitive :: "js_runtime \<Rightarrow> jsval \<Rightarrow> exn + prim" where
  "to_primitive rt Undefined = Inr PUndefined"
| "to_primitive rt (Val JNull) = Inr PNull"
| "to_primitive rt (Val (JBool b)) = Inr (PBool b)"
| "to_primitive rt (Val (JNum n)) = Inr (PNum n)"
| "to_primitive rt (Val (JStr s)) = Inr (PStr s)"
| "to_primitive rt (Val v) =
     (case object_to_primitive rt v of None \<Rightarrow> Inl TypeError | Some s \<Rightarrow> Inr (PStr s))"

fun to_number :: "js_runtime \<Rightarrow> prim \<Rightarrow> jsnum" where
  "to_number rt PUndefined = NaN"
| "to_number rt PNull = Fin 0"
| "to_number rt (PBool b) = Fin (if b then 1 else 0)"
| "to_number rt (PNum n) = n"
| "to_number rt (PStr s) = string_to_number rt s"

fun to_string :: "js_runtime \<Rightarrow> prim \<Rightarrow> string" where
  "to_string rt PUndefined = ''undefined''"
| "to_string rt PNull = ''null''"
| "to_string rt (PBool b) = (if b then ''true'' else ''false'')"
| "to_string rt (PNum n) = number_to_string rt n"
| "to_string rt (PStr s) = s"

fun is_string :: "prim \<Rightarrow> bool" where
  "is_string (PStr s) = True"
| "is_string p = False"

text \<open>
  The operator \<open>+\<close> on two values: both operands are made primitive, left first; if either
  is a string the result is the concatenation, otherwise the sum of the two numbers.
\<close>

definition js_plus :: "js_runtime \<Rightarrow> jsval \<Rightarrow> jsval \<Rightarrow> exn + prim" where
  "js_plus rt a b =
     (case to_primitive rt a of
        Inl e \<Rightarrow> Inl e
      | Inr pa \<Rightarrow>
          (case to_primitive rt b of
             Inl e \<Rightarrow> Inl e
           | Inr pb \<Rightarrow>
               Inr (if is_string pa \<or> is_string pb
                    then PStr (to_string rt pa @ to_string rt pb)
                    else PNum (num_add (to_number rt pa) (to_number rt pb)))))"

text \<open>The operator \<open>/ 2\<close> on the result of \<open>+\<close>.\<close>

definition js_div2 :: "js_runtime \<Rightarrow> prim \<Rightarrow> jsnum" where
  "js_div2 rt p = num_div2 (to_number rt p)"


section \<open>The handler of POST /api/verify\<close>

text \<open>
  \<open>const finalConfidence = (visionResult.confidence + logicResult.logicScore) / 2\<close>
\<close>

definition finalConfidence :: "js_runtime \<Rightarrow> json \<Rightarrow> json \<Rightarrow> exn + jsnum" where
  "finalConfidence rt visionResult logicResult =
     (case get_prop visionResult ''confidence'' of
        Inl e \<Rightarrow> Inl e
      | Inr a \<Rightarrow>
          (case get_prop logicResult ''logicScore'' of
             Inl e \<Rightarrow> Inl e
           | Inr b \<Rightarrow>
               (case js_plus rt a b of
                  Inl e \<Rightarrow> Inl e
                | Inr s \<Rightarrow> Inr (js_div2 rt s))))"

text \<open>
  \<open>finalConfidence > 0.85 ? "VERIFIED" : (finalConfidence > 0.6 ? "PENDING_HITL" : "REJECTED")\<close>
\<close>

definition route_status :: "jsnum \<Rightarrow> string" where
  "route_status c =
     (if num_gt c lit_0_85 then ''VERIFIED''
      else if num_gt c lit_0_6 then ''PENDING_HITL''
      else ''REJECTED'')"

text \<open>
  The three fields that the handler takes out of \<open>req.body\<close>, the object that
  \<open>express.json\<close> has parsed; a missing field is \<open>undefined\<close>.
\<close>

record body =
  documentImage :: jsval
  documentType :: jsval
  contextData :: jsval

text \<open>
  What the process reads from outside the request: the environment variable
  \<open>GEMINI_API_KEY\<close>, the string \<open>Math.random().toString(36)\<close> and the string
  \<open>new Date().toISOString()\<close> at the moment the response is built.
\<close>

record world =
  api_key :: "string option"
  random36 :: string
  now_iso :: string

definition key_missing :: "world \<Rightarrow> bool" where
  "key_missing w = (case api_key w of None \<Rightarrow> True | Some k \<Rightarrow> k = [])"

text \<open>
  The two calls of \<open>ai.models.generateContent\<close>. The prompt of the first is built from the
  document type and carries the image data; the prompt of the second is built from the
  context and from the parsed result of the first.
\<close>

datatype call =
    VisionCall string "string option"
  | LogicCall jsval json

text \<open>
  What a call comes back with, as the handler sees it: the promise rejects; the response has
  no text (\<open>undefined\<close> or the empty string); the text is not empty and \<open>JSON.parse\<close> throws
  on it; the text is not empty and \<open>JSON.parse\<close> returns a value.
\<close>

datatype reply = Rejects | Empty | Garbled | Parses json

text \<open>\<open>JSON.parse((await call).text || "{}")\<close>\<close>

fun parse_reply :: "reply \<Rightarrow> exn + json" where
  "parse_reply Rejects = Inl EngineError"
| "parse_reply Empty = Inr (JObj [])"
| "parse_reply Garbled = Inl SyntaxError"
| "parse_reply (Parses v) = Inr v"

text \<open>\<open>documentImage.split(',')[1]\<close> on a string.\<close>

definition split_second :: "string \<Rightarrow> string option" where
  "split_second s =
     (case dropWhile (\<lambda>c. c \<noteq> CHR '','') s of
        [] \<Rightarrow> None
      | c # rest \<Rightarrow> Some (takeWhile (\<lambda>c. c \<noteq> CHR '','') rest))"

text \<open>The substitution \<open>${v}\<close> of a template literal.\<close>

definition template_string :: "js_runtime \<Rightarrow> jsval \<Rightarrow> exn + string" where
  "template_string rt v =
     (case to_primitive rt v of Inl e \<Rightarrow> Inl e | Inr p \<Rightarrow> Inr (to_string rt p))"

text \<open>
  The argument of the first call. A \<open>documentImage\<close> that is not a string has no callable
  \<open>split\<close>: a TypeError.
\<close>

definition vision_request :: "js_runtime \<Rightarrow> body \<Rightarrow> exn + call" where
  "vision_request rt b =
     (case template_string rt (documentType b) of
        Inl e \<Rightarrow> Inl e
      | Inr ty \<Rightarrow>
          (case documentImage b of
             Val (JStr s) \<Rightarrow> Inr (VisionCall ty (split_second s))
           | _ \<Rightarrow> Inl TypeError))"

record decision =
  id' :: string
  status :: string
  confidence :: jsnum
  vision :: json
  logic :: json
  timestamp :: string

datatype response = Ok200 decision | Err500 string

text \<open>
  The engine interactions of one run, in order: a call is dispatched, and the handler
  resumes when the call has settled.
\<close>

datatype event = Dispatch call | Settle call reply

text \<open>The body of the \<open>try\<close> block: the decision or the exception thrown, and the interactions.\<close>

definition try_block ::
  "js_runtime \<Rightarrow> world \<Rightarrow> (call \<Rightarrow> reply) \<Rightarrow> body \<Rightarrow> (exn + decision) \<times> event list" where
  "try_block rt w engine b =
     (case vision_request rt b of
        Inl e \<Rightarrow> (Inl e, [])
      | Inr c1 \<Rightarrow>
          (let visionResponse = engine c1;
               t1 = [Dispatch c1, Settle c1 visionResponse]
           in case parse_reply visionResponse of
                Inl e \<Rightarrow> (Inl e, t1)
              | Inr visionResult \<Rightarrow>
                  (let c2 = LogicCall (contextData b) visionResult;
                       logicResponse = engine c2;
                       t2 = t1 @ [Dispatch c2, Settle c2 logicResponse]
                   in case parse_reply logicResponse of
                        Inl e \<Rightarrow> (Inl e, t2)
                      | Inr logicResult \<Rightarrow>
                          (case finalConfidence rt visionResult logicResult of
                             Inl e \<Rightarrow> (Inl e, t2)
                           | Inr c \<Rightarrow>
                               (Inr \<lparr> id' = take 9 (drop 2 (random36 w)),
                                      status = route_status c,
                                      confidence = c,
                                      vision = visionResult,
                                      logic = logicResult,
                                      timestamp = now_iso w \<rparr>, t2)))))"

text \<open>The handler: the response sent and the engine interactions of the run.\<close>

definition verify ::
  "js_runtime \<Rightarrow> world \<Rightarrow> (call \<Rightarrow> reply) \<Rightarrow> body \<Rightarrow> response \<times> event list" where
  "verify rt w engine b =
     (if key_missing w then (Err500 ''API Key not configured'', [])
      else case try_block rt w engine b of
             (Inl e, t) \<Rightarrow> (Err500 ''Verification failed'', t)
           | (Inr d, t) \<Rightarrow> (Ok200 d, t))"


section \<open>Notions used to state the properties\<close>

text \<open>
  The engines named by the repository: the handler calls the first and the last; the
  forensic analyser appears in the architecture chart of the front end only.
\<close>

datatype engine_role = Vision | Forensic | Logic

fun role_of :: "call \<Rightarrow> engine_role" where
  "role_of (VisionCall ty img) = Vision"
| "role_of (LogicCall ctx v) = Logic"

fun dispatch_of :: "engine_role \<Rightarrow> event \<Rightarrow> bool" where
  "dispatch_of r (Dispatch c) = (role_of c = r)"
| "dispatch_of r (Settle c x) = False"

fun settle_of :: "engine_role \<Rightarrow> event \<Rightarrow> bool" where
  "settle_of r (Settle c x) = (role_of c = r)"
| "settle_of r (Dispatch c) = False"

text \<open>
  Two engines are dispatched concurrently in a run when both calls have been dispatched
  before either of them settles.
\<close>

definition dispatched_concurrently :: "engine_role \<Rightarrow> engine_role \<Rightarrow> event list \<Rightarrow> bool" where
  "dispatched_concurrently r1 r2 t =
     (let pre = takeWhile (\<lambda>e. \<not> settle_of r1 e \<and> \<not> settle_of r2 e) t
      in list_ex (dispatch_of r1) pre \<and> list_ex (dispatch_of r2) pre)"

text \<open>
  The descriptors of a result are the elements of its array \<open>anomalies\<close> (vision) or
  \<open>discrepancies\<close> (logic), as the two prompts ask for them; a descriptor is of high
  severity when its field \<open>severity\<close> is the string \<open>high\<close>.
\<close>

definition descriptors :: "json \<Rightarrow> string \<Rightarrow> json list" where
  "descriptors v k = (case get_prop v k of Inr (Val (JArr xs)) \<Rightarrow> xs | _ \<Rightarrow> [])"

definition high_severity :: "json \<Rightarrow> bool" where
  "high_severity x = (get_prop x ''severity'' = Inr (Val (JStr ''high'')))"

definition high_severity_count :: "json \<Rightarrow> json \<Rightarrow> nat" where
  "high_severity_count v l =
     length (filter high_severity (descriptors v ''anomalies'' @ descriptors l ''discrepancies''))"

text \<open>A response with the identifier and the timestamp of another reading of the world.\<close>

fun restamp :: "world \<Rightarrow> response \<Rightarrow> response" where
  "restamp w (Ok200 d) =
     Ok200 (d \<lparr> id' := take 9 (drop 2 (random36 w)), timestamp := now_iso w \<rparr>)"
| "restamp w (Err500 m) = Err500 m"

fun response_status :: "response \<Rightarrow> string option" where
  "response_status (Ok200 d) = Some (status d)"
| "response_status (Err500 m) = None"


section \<open>Example inputs\<close>

text \<open>A runtime for the example runs; none of them reaches a conversion.\<close>

definition example_runtime :: js_runtime where
  "example_runtime =
     \<lparr> object_to_primitive = (\<lambda>v. None),
       number_to_string = (\<lambda>n. []),
       string_to_number = (\<lambda>s. NaN) \<rparr>"

definition example_world :: world where
  "example_world =
     \<lparr> api_key = Some ''key'',
       random36 = ''0.4fzyo82mvyr'',
       now_iso = ''2026-01-01T00:00:00.000Z'' \<rparr>"

definition later_world :: world where
  "later_world =
     \<lparr> api_key = Some ''key'',
       random36 = ''0.4fzyo82mvyr'',
       now_iso = ''2026-01-01T00:00:05.000Z'' \<rparr>"

text \<open>A process started without \<open>GEMINI_API_KEY\<close>.\<close>

definition keyless_world :: world where
  "keyless_world =
     \<lparr> api_key = None,
       random36 = ''0.4fzyo82mvyr'',
       now_iso = ''2026-01-01T00:00:00.000Z'' \<rparr>"

definition example_body :: body where
  "example_body =
     \<lparr> documentImage = Val (JStr ''data:image/jpeg;base64,QUJD''),
       documentType = Val (JStr ''passport''),
       contextData = Val (JObj [(''name'', JStr ''A'')]) \<rparr>"

text \<open>A payload without \<open>documentImage\<close>.\<close>

definition imageless_body :: body where
  "imageless_body =
     \<lparr> documentImage = Undefined,
       documentType = Val (JStr ''passport''),
       contextData = Val (JObj [(''name'', JStr ''A'')]) \<rparr>"

text \<open>
  Results in the shape the two prompts ask for: a vision result without descriptors, one
  with the same confidence and a descriptor of high severity, one with a higher confidence,
  and a logic result.
\<close>

definition clean_vision :: json where
  "clean_vision = JObj [(''confidence'', JNum (Fin (1 / 2))), (''anomalies'', JArr [])]"

definition flagged_vision :: json where
  "flagged_vision =
     JObj [(''confidence'', JNum (Fin (1 / 2))),
           (''anomalies'', JArr [JObj [(''field'', JStr ''Issuer Seal''),
                                       (''reason'', JStr ''Resolution inconsistency''),
                                       (''severity'', JStr ''high'')]])]"

definition better_vision :: json where
  "better_vision = JObj [(''confidence'', JNum (Fin (3 / 4))), (''anomalies'', JArr [])]"

definition half_logic :: json where
  "half_logic = JObj [(''logicScore'', JNum (Fin (1 / 2))), (''discrepancies'', JArr [])]"

text \<open>An engine whose every call rejects.\<close>

definition failing_engine :: "call \<Rightarrow> reply" where
  "failing_engine c = Rejects"

text \<open>An engine whose vision call answers and whose logic call rejects.\<close>

fun logic_failing_engine :: "call \<Rightarrow> reply" where
  "logic_failing_engine (VisionCall ty img) = Parses (JObj [(''confidence'', JNum (Fin (1 / 2)))])"
| "logic_failing_engine (LogicCall ctx v) = Rejects"

text \<open>An engine that answers with the two scores given and nothing else.\<close>

fun scores_engine :: "jsnum \<Rightarrow> jsnum \<Rightarrow> call \<Rightarrow> reply" where
  "scores_engine a b (VisionCall ty img) = Parses (JObj [(''confidence'', JNum a)])"
| "scores_engine a b (LogicCall ctx v) = Parses (JObj [(''logicScore'', JNum b)])"

text \<open>An engine whose vision response has no text and whose logic score is \<open>0.5\<close>.\<close>

fun silent_vision_engine :: "call \<Rightarrow> reply" where
  "silent_vision_engine (VisionCall ty img) = Empty"
| "silent_vision_engine (LogicCall ctx v) = Parses (JObj [(''logicScore'', JNum (Fin (1 / 2)))])"


section \<open>Properties of binary64 rounding\<close>

lemma pow2_pos [simp]: "0 < pow2 e"
  by (simp add: pow2_def)

lemma pow2_nonneg [simp]: "0 \<le> pow2 e"
  by (simp add: pow2_def)

lemma pow2_neq_0 [simp]: "pow2 e \<noteq> 0"
  by (simp add: pow2_def)

lemma pow2_add: "pow2 (a + b) = pow2 a * pow2 b"
  by (simp add: pow2_def power_int_add)

lemma pow2_less_iff [simp]: "pow2 a < pow2 b \<longleftrightarrow> a < b"
proof
  assume "pow2 a < pow2 b"
  show "a < b"
  proof (rule ccontr)
    assume "\<not> a < b"
    then have "b \<le> a" by simp
    then have "pow2 b \<le> pow2 a"
      unfolding pow2_def by (intro power_int_increasing) simp_all
    with \<open>pow2 a < pow2 b\<close> show False by simp
  qed
next
  assume "a < b"
  then show "pow2 a < pow2 b"
    unfolding pow2_def by (intro power_int_strict_increasing) simp_all
qed

lemma pow2_le_iff [simp]: "pow2 a \<le> pow2 b \<longleftrightarrow> a \<le> b"
  using pow2_less_iff [of b a] by (simp add: linorder_not_less [symmetric] del: pow2_less_iff)

lemma pow2_nat: "0 \<le> e \<Longrightarrow> pow2 e = of_int (2 ^ nat e)"
  by (simp add: pow2_def power_int_nonneg_exp)

lemma pow2_diff: "pow2 (a - b) = pow2 a / pow2 b"
  by (simp add: pow2_def power_int_diff)

lemma ilog2_bounds:
  assumes "0 < x"
  shows "pow2 (ilog2 x) \<le> x" and "x < pow2 (ilog2 x + 1)"
proof -
  obtain p q where pq: "quotient_of x = (p, q)" by (cases "quotient_of x")
  have q: "0 < q" using pq by (rule quotient_of_denom_pos)
  have x: "x = of_int p / of_int q" using pq by (rule quotient_of_div)
  have p: "0 < p" using assms q x by (simp add: zero_less_divide_iff)
  define a where "a = bitlen p"
  define b where "b = bitlen q"
  have pa: "2 ^ nat (a - 1) \<le> p" "p < 2 ^ nat a"
    using bitlen_bounds [OF p] by (simp_all add: a_def)
  have qb: "2 ^ nat (b - 1) \<le> q" "q < 2 ^ nat b"
    using bitlen_bounds [OF q] by (simp_all add: b_def)
  have a0: "0 < a" using p bitlen_eq_zero_iff [of p] bitlen_nonneg [of p] by (simp add: a_def)
  have b0: "0 < b" using q bitlen_eq_zero_iff [of q] bitlen_nonneg [of q] by (simp add: b_def)
  have P1: "pow2 (a - 1) \<le> of_int p"
    using pa(1) a0 by (simp add: pow2_nat of_int_le_iff del: of_int_power)
  have P2: "(of_int p :: rat) < pow2 a"
    using pa(2) a0 by (simp add: pow2_nat of_int_less_iff del: of_int_power)
  have Q1: "pow2 (b - 1) \<le> of_int q"
    using qb(1) b0 by (simp add: pow2_nat of_int_le_iff del: of_int_power)
  have Q2: "(of_int q :: rat) < pow2 b"
    using qb(2) b0 by (simp add: pow2_nat of_int_less_iff del: of_int_power)
  have qpos: "(0::rat) < of_int q" using q by simp
  have lo: "pow2 (a - b - 1) < x"
  proof -
    have "pow2 (a - b - 1) * of_int q < pow2 (a - b - 1) * pow2 b"
      using Q2 by simp
    also have "\<dots> = pow2 (a - 1)" by (simp add: pow2_add [symmetric])
    also have "\<dots> \<le> of_int p" by (rule P1)
    finally show ?thesis using qpos by (simp add: x pos_less_divide_eq)
  qed
  have hi: "x < pow2 (a - b + 1)"
  proof -
    have "of_int p < pow2 a" by (rule P2)
    also have "\<dots> = pow2 (a - b + 1) * pow2 (b - 1)" by (simp add: pow2_add [symmetric])
    also have "\<dots> \<le> pow2 (a - b + 1) * of_int q" using Q1 by simp
    finally show ?thesis using qpos by (simp add: x pos_divide_less_eq)
  qed
  have il: "ilog2 x = (if pow2 (a - b) \<le> x then a - b else a - b - 1)"
    by (simp add: ilog2_def pq a_def b_def Let_def)
  show "pow2 (ilog2 x) \<le> x" using lo by (simp add: il less_imp_le)
  show "x < pow2 (ilog2 x + 1)" using hi by (auto simp add: il)
qed

lemma ilog2_mono:
  assumes "0 < x" "x \<le> y"
  shows "ilog2 x \<le> ilog2 y"
proof -
  have "pow2 (ilog2 x) \<le> x" using assms by (simp add: ilog2_bounds)
  also have "\<dots> \<le> y" by fact
  also have "\<dots> < pow2 (ilog2 y + 1)" using assms by (simp add: ilog2_bounds)
  finally show ?thesis by simp
qed

lemma ilog2_le:
  assumes "0 < x" "x < pow2 k"
  shows "ilog2 x < k"
proof -
  have "pow2 (ilog2 x) \<le> x" using assms by (simp add: ilog2_bounds)
  also have "\<dots> < pow2 k" by fact
  finally show ?thesis by simp
qed

lemma round_half_even_cases:
  "round_half_even x = \<lfloor>x\<rfloor> \<or> round_half_even x = \<lfloor>x\<rfloor> + 1"
  by (simp add: round_half_even_def Let_def)

lemma round_half_even_of_int [simp]: "round_half_even (of_int n) = n"
  by (simp add: round_half_even_def)

lemma round_half_even_mono:
  assumes "x \<le> y"
  shows "round_half_even x \<le> round_half_even y"
proof (cases "\<lfloor>x\<rfloor> = \<lfloor>y\<rfloor>")
  case True
  then show ?thesis
    using assms by (auto simp add: round_half_even_def Let_def)
next
  case False
  then have "\<lfloor>x\<rfloor> < \<lfloor>y\<rfloor>"
    using floor_mono [OF assms] by simp
  then show ?thesis
    using round_half_even_cases [of x] round_half_even_cases [of y] by auto
qed

lemma round_half_even_error: "\<bar>of_int (round_half_even x) - x\<bar> \<le> 1 / 2"
proof -
  have "of_int \<lfloor>x\<rfloor> \<le> x \<and> x < of_int (\<lfloor>x\<rfloor> + 1)"
    by (rule floor_correct)
  then have "of_int \<lfloor>x\<rfloor> \<le> x" "x < of_int \<lfloor>x\<rfloor> + 1"
    by simp_all
  then show ?thesis
    by (auto simp add: round_half_even_def Let_def abs_le_iff)
qed

lemma round_half_even_small:
  assumes "0 \<le> x" "x < 1 / 2"
  shows "round_half_even x = 0"
proof -
  have "\<lfloor>x\<rfloor> = 0" using assms by (simp add: floor_unique)
  then show ?thesis using assms by (simp add: round_half_even_def)
qed

lemma round_magnitude_eq:
  "q = max (ilog2 a - 52) (- 1074) \<Longrightarrow>
   round_magnitude a = of_int (round_half_even (a / pow2 q)) * pow2 q"
  by (simp add: round_magnitude_def Let_def)

lemma round_magnitude_nonneg:
  assumes "0 < a"
  shows "0 \<le> round_magnitude a"
proof -
  have "0 \<le> a / pow2 (max (ilog2 a - 52) (- 1074))"
    by (rule divide_nonneg_pos) (use assms in simp_all)
  then have "round_half_even 0 \<le> round_half_even (a / pow2 (max (ilog2 a - 52) (- 1074)))"
    by (rule round_half_even_mono)
  then have "0 \<le> round_half_even (a / pow2 (max (ilog2 a - 52) (- 1074)))"
    using round_half_even_of_int [of 0] by (simp del: round_half_even_of_int)
  then show ?thesis
    by (simp add: round_magnitude_eq [OF refl])
qed

text \<open>An upper neighbour: the rounded magnitude does not pass the next power of two.\<close>

lemma round_magnitude_upper:
  assumes "0 < a"
  shows "round_magnitude a \<le> pow2 (ilog2 a + 1)"
proof -
  define q where "q = max (ilog2 a - 52) (- 1074)"
  define k where "k = ilog2 a + 1 - q"
  have rm: "round_magnitude a = of_int (round_half_even (a / pow2 q)) * pow2 q"
    using q_def by (rule round_magnitude_eq)
  have lt: "a / pow2 q < pow2 k"
    using ilog2_bounds(2) [OF assms] by (simp add: k_def pow2_diff pos_divide_less_eq)
  show ?thesis
  proof (cases "0 \<le> k")
    case True
    have "round_half_even (a / pow2 q) \<le> round_half_even (of_int (2 ^ nat k))"
      using lt True by (intro round_half_even_mono) (simp add: pow2_nat)
    then have "round_half_even (a / pow2 q) \<le> 2 ^ nat k"
      by (simp only: round_half_even_of_int)
    then have "(of_int (round_half_even (a / pow2 q)) :: rat) \<le> of_int (2 ^ nat k)"
      by (simp only: of_int_le_iff)
    then have "of_int (round_half_even (a / pow2 q)) \<le> pow2 k"
      using True by (simp add: pow2_nat)
    then have "round_magnitude a \<le> pow2 k * pow2 q"
      by (simp add: rm)
    then show ?thesis by (simp add: pow2_add [symmetric] k_def)
  next
    case False
    then have "k \<le> - 1" by simp
    then have "pow2 k \<le> pow2 (- 1)" by simp
    also have "pow2 (- 1) = 1 / 2" by (simp add: pow2_def)
    finally have "a / pow2 q < 1 / 2" using lt by (rule less_le_trans [rotated])
    moreover have "0 \<le> a / pow2 q"
      by (rule divide_nonneg_pos) (use assms in simp_all)
    ultimately have "round_half_even (a / pow2 q) = 0"
      by (intro round_half_even_small)
    then show ?thesis by (simp add: rm less_imp_le)
  qed
qed

text \<open>A lower neighbour in the normal range: the rounded magnitude keeps its binade.\<close>

lemma round_magnitude_lower:
  assumes "0 < a" and "- 1074 \<le> ilog2 a - 52"
  shows "pow2 (ilog2 a) \<le> round_magnitude a"
proof -
  define q where "q = ilog2 a - 52"
  have "q = max (ilog2 a - 52) (- 1074)"
    using assms(2) by (simp add: q_def)
  then have rm: "round_magnitude a = of_int (round_half_even (a / pow2 q)) * pow2 q"
    by (rule round_magnitude_eq)
  have "pow2 52 \<le> a / pow2 q"
    using ilog2_bounds(1) [OF assms(1)] by (simp add: q_def pow2_diff pos_le_divide_eq)
  then have "round_half_even (of_int (2 ^ 52)) \<le> round_half_even (a / pow2 q)"
    by (intro round_half_even_mono) (simp add: pow2_nat)
  then have "2 ^ 52 \<le> round_half_even (a / pow2 q)"
    by (simp only: round_half_even_of_int)
  then have "(of_int (2 ^ 52) :: rat) \<le> of_int (round_half_even (a / pow2 q))"
    by (simp only: of_int_le_iff)
  then have "pow2 52 \<le> of_int (round_half_even (a / pow2 q))"
    by (simp add: pow2_nat)
  then have "pow2 52 * pow2 q \<le> round_magnitude a"
    by (simp add: rm)
  then show ?thesis by (simp add: pow2_add [symmetric] q_def)
qed

lemma round_magnitude_mono:
  assumes "0 < a" "a \<le> b"
  shows "round_magnitude a \<le> round_magnitude b"
proof -
  have b: "0 < b" using assms by simp
  define qa where "qa = max (ilog2 a - 52) (- 1074)"
  define qb where "qb = max (ilog2 b - 52) (- 1074)"
  have le: "ilog2 a \<le> ilog2 b" using assms by (rule ilog2_mono)
  show ?thesis
  proof (cases "qa = qb")
    case True
    have "a / pow2 qb \<le> b / pow2 qb"
      by (rule divide_right_mono) (use assms in simp_all)
    then have "round_half_even (a / pow2 qb) \<le> round_half_even (b / pow2 qb)"
      by (rule round_half_even_mono)
    then have "(of_int (round_half_even (a / pow2 qb)) :: rat) \<le> of_int (round_half_even (b / pow2 qb))"
      by (simp only: of_int_le_iff)
    then show ?thesis
      using True by (simp add: round_magnitude_eq [OF qa_def] round_magnitude_eq [OF qb_def])
  next
    case False
    then have "qa < qb" using le by (simp add: qa_def qb_def max_def split: if_splits)
    then have n: "- 1074 \<le> ilog2 b - 52" and lt: "ilog2 a + 1 \<le> ilog2 b"
      by (simp_all add: qa_def qb_def max_def split: if_splits)
    have "round_magnitude a \<le> pow2 (ilog2 a + 1)"
      using assms(1) by (rule round_magnitude_upper)
    also have "\<dots> \<le> pow2 (ilog2 b)" using lt by simp
    also have "\<dots> \<le> round_magnitude b" using b n by (rule round_magnitude_lower)
    finally show ?thesis .
  qed
qed

lemma rnd_pos:
  "0 < x \<Longrightarrow> rnd x = (if pow2 1024 \<le> round_magnitude x then PInf else Fin (round_magnitude x))"
  by (simp add: rnd_def Let_def)

lemma rnd_neg:
  "x < 0 \<Longrightarrow>
   rnd x = (if pow2 1024 \<le> round_magnitude (- x) then NInf else Fin (- round_magnitude (- x)))"
  by (simp add: rnd_def Let_def)

lemma rnd_zero [simp]: "rnd 0 = Fin 0"
  by (simp add: rnd_def)

lemma rnd_not_NaN [simp]: "rnd x \<noteq> NaN"
  by (simp add: rnd_def Let_def)

lemma rnd_mono:
  assumes "x \<le> y"
  shows "num_le (rnd x) (rnd y)"
proof -
  consider "x < 0" "y < 0" | "x < 0" "y = 0" | "x < 0" "0 < y" | "x = 0" "y = 0"
    | "x = 0" "0 < y" | "0 < x" "0 < y"
    using assms by linarith
  then show ?thesis
  proof cases
    case 1
    then have "round_magnitude (- y) \<le> round_magnitude (- x)"
      using assms by (intro round_magnitude_mono) simp_all
    then show ?thesis
      using 1 by (simp add: rnd_neg num_le_def num_ge_def)
  next
    case 2
    then show ?thesis
      using round_magnitude_nonneg [of "- x"] by (simp add: rnd_neg num_le_def num_ge_def)
  next
    case 3
    then show ?thesis
      using round_magnitude_nonneg [of "- x"] round_magnitude_nonneg [of y]
      by (simp add: rnd_neg rnd_pos num_le_def num_ge_def)
  next
    case 4
    then show ?thesis by (simp add: num_le_def num_ge_def)
  next
    case 5
    then show ?thesis
      using round_magnitude_nonneg [of y] by (simp add: rnd_pos num_le_def num_ge_def)
  next
    case 6
    then have "round_magnitude x \<le> round_magnitude y"
      using assms by (intro round_magnitude_mono) simp_all
    then show ?thesis
      using 6 by (simp add: rnd_pos num_le_def num_ge_def)
  qed
qed

lemma ilog2_eqI:
  assumes "0 < x" "pow2 e \<le> x" "x < pow2 (e + 1)"
  shows "ilog2 x = e"
proof -
  have "pow2 (ilog2 x) \<le> x" "x < pow2 (ilog2 x + 1)"
    using assms(1) by (rule ilog2_bounds)+
  then have "pow2 (ilog2 x) < pow2 (e + 1)" "pow2 e < pow2 (ilog2 x + 1)"
    using assms(2,3) by (blast intro: le_less_trans)+
  then show ?thesis by simp
qed

lemma floor_rat_numeral [simp]:
  "\<lfloor>numeral a / numeral b :: rat\<rfloor> = numeral a div numeral b"
  by (metis floor_divide_of_int_eq of_int_numeral)

lemma rnd_pos_eqI:
  assumes "0 < x" "pow2 e \<le> x" "x < pow2 (e + 1)"
    and "q = max (e - 52) (- 1074)"
    and "round_half_even (x / pow2 q) = m"
    and "of_int m * pow2 q < pow2 1024"
  shows "rnd x = Fin (of_int m * pow2 q)"
proof -
  have "ilog2 x = e" using assms(1-3) by (rule ilog2_eqI)
  then have "round_magnitude x = of_int m * pow2 q"
    using assms(4,5) by (simp add: round_magnitude_eq)
  then show ?thesis using assms(1,6) by (simp add: rnd_pos)
qed

lemma lit_0_85_eq: "lit_0_85 = Fin (7656119366529843 / 9007199254740992)"
  unfolding lit_0_85_def
  using rnd_pos_eqI [of "85 / 100" "- 1" "- 53" 7656119366529843]
  by (simp add: pow2_def round_half_even_def Let_def)

lemma lit_0_6_eq: "lit_0_6 = Fin (5404319552844595 / 9007199254740992)"
  unfolding lit_0_6_def
  using rnd_pos_eqI [of "6 / 10" "- 1" "- 53" 5404319552844595]
  by (simp add: pow2_def round_half_even_def Let_def)

lemma rnd_1 : "rnd 1 = Fin 1"
  using rnd_pos_eqI [of 1 0 "- 52" "2 ^ 52"]
  by (simp add: pow2_def round_half_even_def Let_def)

lemma rnd_2 : "rnd 2 = Fin 2"
  using rnd_pos_eqI [of 2 1 "- 51" "2 ^ 52"]
  by (simp add: pow2_def round_half_even_def Let_def)

lemma num_gt_irrefl [simp]: "\<not> num_gt x x"
  by (cases x) simp_all

text \<open>The double \<open>0.85\<close>, its double, and back: both operations are exact here.\<close>

lemma rnd_twice_0_85:
  "rnd (7656119366529843 / 4503599627370496) = Fin (7656119366529843 / 4503599627370496)"
  using rnd_pos_eqI [of "7656119366529843 / 4503599627370496" 0 "- 52" 7656119366529843]
  by (simp add: pow2_def round_half_even_def Let_def)

lemma rnd_once_0_85:
  "rnd (7656119366529843 / 9007199254740992) = Fin (7656119366529843 / 9007199254740992)"
  using rnd_pos_eqI [of "7656119366529843 / 9007199254740992" "- 1" "- 53" 7656119366529843]
  by (simp add: pow2_def round_half_even_def Let_def)


section \<open>Routing thresholds\<close>

text \<open>
  C1, as the code has it. The status is VERIFIED exactly when the final confidence is
  greater than \<open>0.85\<close>, PENDING\_HITL exactly when it is greater than \<open>0.6\<close> and at most
  \<open>0.85\<close>, and REJECTED exactly when it is not greater than \<open>0.6\<close> (at most \<open>0.6\<close>, or
  NaN). Both comparisons are strict, so a confidence of exactly \<open>0.85\<close> is PENDING\_HITL and
  one of exactly \<open>0.6\<close> is REJECTED: a tie goes to the lower-trust band. Here \<open>0.85\<close> and
  \<open>0.6\<close> are the numbers that the literals of the handler denote, and the comparisons are
  those of the language.
\<close>

theorem route_status_thresholds:
  "(route_status c = ''VERIFIED'' \<longleftrightarrow> num_gt c lit_0_85) \<and>
   (route_status c = ''PENDING_HITL'' \<longleftrightarrow> num_gt c lit_0_6 \<and> num_le c lit_0_85) \<and>
   (route_status c = ''REJECTED'' \<longleftrightarrow> \<not> num_gt c lit_0_6) \<and>
   route_status lit_0_85 = ''PENDING_HITL'' \<and>
   route_status lit_0_6 = ''REJECTED''"
  by (cases c) (simp_all add: route_status_def num_le_def num_ge_def lit_0_85_eq lit_0_6_eq)

text \<open>
  C1 as stated asks for VERIFIED whenever the confidence is at least \<open>0.85\<close>. Two scores of
  \<open>0.85\<close> aggregate to exactly \<open>0.85\<close>, which is at least \<open>0.85\<close>, and the status is not
  VERIFIED.
\<close>

theorem tie_at_0_85_not_verified:
  "finalConfidence example_runtime
     (JObj [(''confidence'', JNum lit_0_85)]) (JObj [(''logicScore'', JNum lit_0_85)])
     = Inr lit_0_85 \<and>
   num_ge lit_0_85 lit_0_85 \<and>
   route_status lit_0_85 \<noteq> ''VERIFIED''"
  by (simp add: finalConfidence_def js_plus_def js_div2_def route_status_def num_ge_def
      lit_0_85_eq lit_0_6_eq rnd_twice_0_85 rnd_once_0_85)


section \<open>Failure of the engine calls\<close>

text \<open>
  C2, as the code has it. When every engine call fails, the request ends with an error
  response that carries no status: the generic error \<open>Verification failed\<close> when the API
  key is configured, and the configuration error otherwise. No decision is reported.
\<close>

theorem engine_failure_response:
  assumes "\<forall>c. engine c = Rejects"
  shows "fst (verify rt w engine b) =
           (if key_missing w then Err500 ''API Key not configured''
            else Err500 ''Verification failed'') \<and>
         response_status (fst (verify rt w engine b)) = None"
  using assms
  by (simp add: verify_def try_block_def Let_def split: sum.splits prod.splits)

theorem engine_failure_response_witness:
  "(\<forall>c. failing_engine c = Rejects) \<and>
   fst (verify example_runtime example_world failing_engine imageless_body)
     = Err500 ''Verification failed''"
  using engine_failure_response [of failing_engine example_runtime example_world imageless_body]
  by (simp add: failing_engine_def key_missing_def example_world_def)

text \<open>
  C2 as stated asks for the status REJECTED. With a well-formed request, a configured key
  and an engine whose calls all fail, the response is the generic error and has no status.
\<close>

theorem engine_failure_is_generic_error:
  "fst (verify example_runtime example_world failing_engine example_body)
     = Err500 ''Verification failed'' \<and>
   response_status (fst (verify example_runtime example_world failing_engine example_body))
     = None"
  by (simp add: verify_def try_block_def key_missing_def example_world_def example_body_def
      vision_request_def template_string_def failing_engine_def)


section \<open>Malformed and empty engine responses\<close>

lemma num_add_NaN_right [simp]: "num_add x NaN = NaN"
  by (cases x) simp_all

lemma route_status_NaN [simp]: "route_status NaN = ''REJECTED''"
  by (simp add: route_status_def)

lemma finalConfidence_missing_left:
  assumes "get_prop v ''confidence'' = Inr Undefined"
    and "get_prop l ''logicScore'' = Inr (Val (JNum s)) \<or> get_prop l ''logicScore'' = Inr Undefined"
  shows "finalConfidence rt v l = Inr NaN"
  using assms by (auto simp add: finalConfidence_def js_plus_def js_div2_def)

lemma finalConfidence_missing_right:
  assumes "get_prop v ''confidence'' = Inr (Val (JNum s)) \<or> get_prop v ''confidence'' = Inr Undefined"
    and "get_prop l ''logicScore'' = Inr Undefined"
  shows "finalConfidence rt v l = Inr NaN"
  using assms by (auto simp add: finalConfidence_def js_plus_def js_div2_def)

lemma silent_vision_run:
  "fst (verify example_runtime example_world silent_vision_engine example_body) =
     Ok200 \<lparr> id' = ''4fzyo82mv'', status = ''REJECTED'', confidence = NaN, vision = JObj [],
             logic = JObj [(''logicScore'', JNum (Fin (1 / 2)))],
             timestamp = ''2026-01-01T00:00:00.000Z'' \<rparr>"
  by (simp add: verify_def try_block_def key_missing_def example_world_def example_body_def
      vision_request_def template_string_def finalConfidence_def js_plus_def js_div2_def
      route_status_def Let_def)

lemma parse_reply_throws: "(\<exists>e. parse_reply r = Inl e) \<longleftrightarrow> r = Rejects \<or> r = Garbled"
  by (cases r) simp_all

lemma verify_vision_unparsed:
  assumes "\<not> key_missing w" and "vision_request rt b = Inr c1"
    and "parse_reply (engine c1) = Inl e"
  shows "fst (verify rt w engine b) = Err500 ''Verification failed''"
  using assms by (simp add: verify_def try_block_def Let_def)

lemma verify_logic_unparsed:
  assumes "\<not> key_missing w" and "vision_request rt b = Inr c1"
    and "parse_reply (engine c1) = Inr v"
    and "parse_reply (engine (LogicCall (contextData b) v)) = Inl e"
  shows "fst (verify rt w engine b) = Err500 ''Verification failed''"
  using assms by (simp add: verify_def try_block_def Let_def)

lemma verify_both_parsed:
  assumes "\<not> key_missing w" and "vision_request rt b = Inr c1"
    and "parse_reply (engine c1) = Inr v"
    and "parse_reply (engine (LogicCall (contextData b) v)) = Inr l"
  shows "fst (verify rt w engine b) =
     (case finalConfidence rt v l of
        Inl e \<Rightarrow> Err500 ''Verification failed''
      | Inr c \<Rightarrow>
          Ok200 \<lparr> id' = take 9 (drop 2 (random36 w)), status = route_status c, confidence = c,
                  vision = v, logic = l, timestamp = now_iso w \<rparr>)"
  using assms by (simp add: verify_def try_block_def Let_def split: sum.splits)










section \<open>Determinism\<close>

text \<open>
  C5, as the code has it. Two runs on the same payload, context, engine results and key
  configuration make the same engine calls and give the same response up to two fields: the
  status, the confidence and the two engine results agree, and so does an error response,
  while the identifier is drawn from \<open>Math.random\<close> and the timestamp is read from the
  clock.
\<close>

theorem decision_up_to_stamp:
  assumes "key_missing w' = key_missing w"
  shows "verify rt w' engine b =
           (restamp w' (fst (verify rt w engine b)), snd (verify rt w engine b)) \<and>
         (\<forall>d. fst (verify rt w engine b) = Ok200 d \<longrightarrow>
            id' d = take 9 (drop 2 (random36 w)) \<and> timestamp d = now_iso w)"
  using assms
  by (auto simp add: verify_def try_block_def Let_def split: sum.splits prod.splits)

theorem decision_up_to_stamp_witness:
  "key_missing later_world = key_missing example_world \<and>
   verify example_runtime later_world (scores_engine (Fin (1 / 2)) (Fin (1 / 2))) example_body =
     (restamp later_world
        (fst (verify example_runtime example_world (scores_engine (Fin (1 / 2)) (Fin (1 / 2)))
           example_body)),
      snd (verify example_runtime example_world (scores_engine (Fin (1 / 2)) (Fin (1 / 2)))
           example_body))"
  using decision_up_to_stamp [of later_world example_world example_runtime
      "scores_engine (Fin (1 / 2)) (Fin (1 / 2))" example_body]
  by (simp add: key_missing_def later_world_def example_world_def)

text \<open>
  C5 as stated asks for identical responses in every field. The same request with the same
  engine results, answered five seconds later, gives a different response.
\<close>

theorem timestamp_differs_between_runs:
  "fst (verify example_runtime example_world (scores_engine (Fin (1 / 2)) (Fin (1 / 2)))
          example_body)
     \<noteq> fst (verify example_runtime later_world (scores_engine (Fin (1 / 2)) (Fin (1 / 2)))
          example_body)"
  by (simp add: verify_def try_block_def key_missing_def example_world_def later_world_def
      example_body_def vision_request_def template_string_def finalConfidence_def js_plus_def
      Let_def)


section \<open>Error responses\<close>

lemma vision_request_not_string:
  assumes "\<forall>s. documentImage b \<noteq> Val (JStr s)"
  shows "\<exists>e. vision_request rt b = Inl e"
  using assms
  by (auto simp add: vision_request_def split: sum.splits jsval.splits json.splits)

lemma verify_no_request:
  assumes "\<not> key_missing w" and "vision_request rt b = Inl e"
  shows "fst (verify rt w engine b) = Err500 ''Verification failed''"
  using assms by (simp add: verify_def try_block_def)

lemma verify_aggregation_throws:
  assumes "\<not> key_missing w" and "vision_request rt b = Inr c1"
    and "parse_reply (engine c1) = Inr v"
    and "parse_reply (engine (LogicCall (contextData b) v)) = Inr l"
    and "finalConfidence rt v l = Inl e"
  shows "fst (verify rt w engine b) = Err500 ''Verification failed''"
  using verify_both_parsed [OF assms(1-4)] assms(5) by simp

lemma verify_error_message:
  assumes "fst (verify rt w engine b) = Err500 m"
  shows "m = (if key_missing w then ''API Key not configured'' else ''Verification failed'')"
  using assms
  by (auto simp add: verify_def try_block_def Let_def split: sum.splits prod.splits if_splits)

text \<open>
  C8, as the code has it, for a request whose body the JSON middleware has parsed, so that
  the handler runs. A missing API key is answered with the error
  \<open>API Key not configured\<close>. Every failure inside the handler is answered with the one
  error \<open>Verification failed\<close>: a payload whose \<open>documentImage\<close> is not a string, or whose
  first request cannot be built; a rejected call or an unparsable response of either engine
  (a transient fault, or a key that the engine refuses); an exception of the aggregation.
  An error response of the handler therefore tells a missing key from the rest, and nothing
  more.
\<close>

theorem error_responses:
  "(key_missing w \<longrightarrow> fst (verify rt w engine b) = Err500 ''API Key not configured'') \<and>
   (\<not> key_missing w \<and> (\<forall>s. documentImage b \<noteq> Val (JStr s)) \<longrightarrow>
      fst (verify rt w engine b) = Err500 ''Verification failed'') \<and>
   (\<not> key_missing w \<and> vision_request rt b = Inr c \<and> engine c = Rejects \<longrightarrow>
      fst (verify rt w engine b) = Err500 ''Verification failed'') \<and>
   (fst (verify rt w engine b) = Err500 m \<longrightarrow>
      m = (if key_missing w then ''API Key not configured'' else ''Verification failed'')) \<and>
   (\<forall>e. \<not> key_missing w \<and> vision_request rt b = Inl e \<longrightarrow>
      fst (verify rt w engine b) = Err500 ''Verification failed'') \<and>
   (\<forall>c1. \<not> key_missing w \<and> vision_request rt b = Inr c1 \<and>
      (engine c1 = Rejects \<or> engine c1 = Garbled) \<longrightarrow>
      fst (verify rt w engine b) = Err500 ''Verification failed'') \<and>
   (\<forall>c1 v. \<not> key_missing w \<and> vision_request rt b = Inr c1 \<and>
      parse_reply (engine c1) = Inr v \<and>
      (engine (LogicCall (contextData b) v) = Rejects \<or>
       engine (LogicCall (contextData b) v) = Garbled) \<longrightarrow>
      fst (verify rt w engine b) = Err500 ''Verification failed'') \<and>
   (\<forall>c1 v l e. \<not> key_missing w \<and> vision_request rt b = Inr c1 \<and>
      parse_reply (engine c1) = Inr v \<and>
      parse_reply (engine (LogicCall (contextData b) v)) = Inr l \<and>
      finalConfidence rt v l = Inl e \<longrightarrow>
      fst (verify rt w engine b) = Err500 ''Verification failed'') \<and>
   (\<forall>c1 v l x. \<not> key_missing w \<and> vision_request rt b = Inr c1 \<and>
      parse_reply (engine c1) = Inr v \<and>
      parse_reply (engine (LogicCall (contextData b) v)) = Inr l \<and>
      finalConfidence rt v l = Inr x \<longrightarrow>
      (\<exists>d. fst (verify rt w engine b) = Ok200 d))"
proof -
  have a: "fst (verify rt w engine b) = Err500 ''API Key not configured''" if "key_missing w"
    using that by (simp add: verify_def)
  have n: "fst (verify rt w engine b) = Err500 ''Verification failed''"
    if "\<not> key_missing w" "vision_request rt b = Inl e" for e
    using that by (rule verify_no_request)
  have i: "fst (verify rt w engine b) = Err500 ''Verification failed''"
    if "\<not> key_missing w" "\<forall>s. documentImage b \<noteq> Val (JStr s)"
    using that vision_request_not_string [of b rt] n by blast
  have v1: "fst (verify rt w engine b) = Err500 ''Verification failed''"
    if h: "\<not> key_missing w" "vision_request rt b = Inr c1"
      "engine c1 = Rejects \<or> engine c1 = Garbled" for c1
  proof -
    obtain e where "parse_reply (engine c1) = Inl e"
      using h(3) parse_reply_throws [of "engine c1"] by blast
    with h(1,2) show ?thesis by (rule verify_vision_unparsed)
  qed
  have v2: "fst (verify rt w engine b) = Err500 ''Verification failed''"
    if h: "\<not> key_missing w" "vision_request rt b = Inr c1" "parse_reply (engine c1) = Inr v"
      "engine (LogicCall (contextData b) v) = Rejects \<or>
       engine (LogicCall (contextData b) v) = Garbled" for c1 v
  proof -
    obtain e where "parse_reply (engine (LogicCall (contextData b) v)) = Inl e"
      using h(4) parse_reply_throws [of "engine (LogicCall (contextData b) v)"] by blast
    with h(1-3) show ?thesis by (rule verify_logic_unparsed)
  qed
  have v3: "fst (verify rt w engine b) = Err500 ''Verification failed''"
    if "\<not> key_missing w" "vision_request rt b = Inr c1" "parse_reply (engine c1) = Inr v"
      "parse_reply (engine (LogicCall (contextData b) v)) = Inr l"
      "finalConfidence rt v l = Inl e" for c1 v l e
    using that by (rule verify_aggregation_throws)
  have ok: "\<exists>d. fst (verify rt w engine b) = Ok200 d"
    if "\<not> key_missing w" "vision_request rt b = Inr c1" "parse_reply (engine c1) = Inr v"
      "parse_reply (engine (LogicCall (contextData b) v)) = Inr l"
      "finalConfidence rt v l = Inr x" for c1 v l x
    using verify_both_parsed [OF that(1-4)] that(5) by simp
  have m: "m = (if key_missing w then ''API Key not configured'' else ''Verification failed'')"
    if "fst (verify rt w engine b) = Err500 m"
    using that by (rule verify_error_message)
  show ?thesis
    using a i v1 v2 v3 ok m n by blast
qed

theorem error_responses_witness:
  "key_missing keyless_world \<and>
   fst (verify example_runtime keyless_world failing_engine example_body)
     = Err500 ''API Key not configured'' \<and>
   \<not> key_missing example_world \<and>
   fst (verify example_runtime example_world failing_engine imageless_body)
     = Err500 ''Verification failed'' \<and>
   vision_request example_runtime example_body = Inr (VisionCall ''passport'' (Some ''QUJD'')) \<and>
   fst (verify example_runtime example_world logic_failing_engine example_body)
     = Err500 ''Verification failed''"
proof -
  have k: "key_missing keyless_world"
    by (simp add: key_missing_def keyless_world_def)
  have e: "\<not> key_missing example_world"
    by (simp add: key_missing_def example_world_def)
  have i: "\<forall>s. documentImage imageless_body \<noteq> Val (JStr s)"
    by (simp add: imageless_body_def)
  have r: "vision_request example_runtime example_body =
             Inr (VisionCall ''passport'' (Some ''QUJD''))"
    by (simp add: example_body_def vision_request_def template_string_def split_second_def)
  have p: "parse_reply (logic_failing_engine (VisionCall ''passport'' (Some ''QUJD''))) =
             Inr (JObj [(''confidence'', JNum (Fin (1 / 2)))])"
    by simp
  have j: "logic_failing_engine (LogicCall (contextData example_body)
             (JObj [(''confidence'', JNum (Fin (1 / 2)))])) = Rejects"
    by simp
  have 1: "fst (verify example_runtime keyless_world failing_engine example_body)
             = Err500 ''API Key not configured''"
    using error_responses [of keyless_world example_runtime failing_engine example_body,
        THEN conjunct1] k
    by (rule mp)
  have 2: "fst (verify example_runtime example_world failing_engine imageless_body)
             = Err500 ''Verification failed''"
    using error_responses [of example_world example_runtime failing_engine imageless_body,
        THEN conjunct2, THEN conjunct1] e i
    by blast
  have 3: "fst (verify example_runtime example_world logic_failing_engine example_body)
             = Err500 ''Verification failed''"
    using error_responses [of example_world example_runtime logic_failing_engine example_body,
        THEN conjunct2, THEN conjunct2, THEN conjunct2, THEN conjunct2, THEN conjunct2,
        THEN conjunct2, THEN conjunct1] e r p j
    by blast
  from k e r 1 2 3 show ?thesis by simp
qed

text \<open>
  C8 as stated asks that a validation failure and an upstream failure be told apart. A
  payload without image, and a well-formed payload whose engine call is rejected, get the
  same response.
\<close>

theorem validation_and_upstream_failure_alike:
  "fst (verify example_runtime example_world (scores_engine (Fin (1 / 2)) (Fin (1 / 2)))
          imageless_body)
     = fst (verify example_runtime example_world failing_engine example_body)"
  by (simp add: verify_def try_block_def key_missing_def example_world_def example_body_def
      imageless_body_def vision_request_def template_string_def failing_engine_def)


section \<open>Order of the engine calls\<close>

lemma vision_request_role:
  assumes "vision_request rt b = Inr c"
  shows "role_of c = Vision"
  using assms
  by (auto simp add: vision_request_def split: sum.splits jsval.splits json.splits)

lemma verify_trace_shape:
  "snd (verify rt w engine b) = [] \<or>
   (\<exists>c1. vision_request rt b = Inr c1 \<and>
      (snd (verify rt w engine b) = [Dispatch c1, Settle c1 (engine c1)] \<or>
       (\<exists>v. parse_reply (engine c1) = Inr v \<and>
          snd (verify rt w engine b) =
            [Dispatch c1, Settle c1 (engine c1),
             Dispatch (LogicCall (contextData b) v),
             Settle (LogicCall (contextData b) v) (engine (LogicCall (contextData b) v))])))"
  by (auto simp add: verify_def try_block_def Let_def split: sum.splits prod.splits)

text \<open>
  C9, as the code has it. The engine calls of a run are made one after the other: none, or
  the vision call alone, or the vision call followed, once it has settled and its text has
  been parsed, by the logic call, whose prompt carries the parsed vision result. No forensic
  call is dispatched, and no two calls are in flight together.
\<close>

theorem calls_are_sequential:
  "(snd (verify rt w engine b) = [] \<or>
    (\<exists>c1. vision_request rt b = Inr c1 \<and>
       (snd (verify rt w engine b) = [Dispatch c1, Settle c1 (engine c1)] \<or>
        (\<exists>v. parse_reply (engine c1) = Inr v \<and>
           snd (verify rt w engine b) =
             [Dispatch c1, Settle c1 (engine c1),
              Dispatch (LogicCall (contextData b) v),
              Settle (LogicCall (contextData b) v) (engine (LogicCall (contextData b) v))])))) \<and>
   \<not> list_ex (dispatch_of Forensic) (snd (verify rt w engine b)) \<and>
   \<not> dispatched_concurrently Vision Forensic (snd (verify rt w engine b)) \<and>
   \<not> dispatched_concurrently Vision Logic (snd (verify rt w engine b))"
proof -
  let ?t = "snd (verify rt w engine b)"
  have shape: "?t = [] \<or>
   (\<exists>c1. vision_request rt b = Inr c1 \<and>
      (?t = [Dispatch c1, Settle c1 (engine c1)] \<or>
       (\<exists>v. parse_reply (engine c1) = Inr v \<and>
          ?t = [Dispatch c1, Settle c1 (engine c1),
             Dispatch (LogicCall (contextData b) v),
             Settle (LogicCall (contextData b) v) (engine (LogicCall (contextData b) v))])))"
    by (rule verify_trace_shape)
  have "\<not> list_ex (dispatch_of Forensic) ?t"
    using shape by (auto dest: vision_request_role)
  moreover have "\<not> dispatched_concurrently Vision Forensic ?t"
    using shape by (auto simp add: dispatched_concurrently_def dest: vision_request_role)
  moreover have "\<not> dispatched_concurrently Vision Logic ?t"
    using shape by (auto simp add: dispatched_concurrently_def dest: vision_request_role)
  ultimately show ?thesis using shape by blast
qed

text \<open>
  C9 as stated asks for a vision and a forensic call dispatched together. A complete run
  dispatches the vision call, waits for it, and dispatches the logic call; there is no
  forensic call.
\<close>

theorem no_concurrent_forensic_dispatch:
  "snd (verify example_runtime example_world (scores_engine (Fin (1 / 2)) (Fin (1 / 2)))
          example_body) =
     [Dispatch (VisionCall ''passport'' (Some ''QUJD'')),
      Settle (VisionCall ''passport'' (Some ''QUJD''))
        (Parses (JObj [(''confidence'', JNum (Fin (1 / 2)))])),
      Dispatch (LogicCall (Val (JObj [(''name'', JStr ''A'')]))
        (JObj [(''confidence'', JNum (Fin (1 / 2)))])),
      Settle (LogicCall (Val (JObj [(''name'', JStr ''A'')]))
        (JObj [(''confidence'', JNum (Fin (1 / 2)))]))
        (Parses (JObj [(''logicScore'', JNum (Fin (1 / 2)))]))] \<and>
   \<not> dispatched_concurrently Vision Forensic
       (snd (verify example_runtime example_world (scores_engine (Fin (1 / 2)) (Fin (1 / 2)))
          example_body))"
  by (simp add: verify_def try_block_def key_missing_def example_world_def example_body_def
      vision_request_def template_string_def split_second_def finalConfidence_def js_plus_def
      Let_def dispatched_concurrently_def)


section \<open>The status of a successful response\<close>

lemma rnd_3: "rnd 3 = Fin 3"
  using rnd_pos_eqI [of 3 1 "- 51" "3 * 2 ^ 51"]
  by (simp add: pow2_def round_half_even_def Let_def)

lemma rnd_3_halves: "rnd (3 / 2) = Fin (3 / 2)"
  using rnd_pos_eqI [of "3 / 2" 0 "- 52" "3 * 2 ^ 51"]
  by (simp add: pow2_def round_half_even_def Let_def)

lemma route_status_cases:
  "route_status c = ''VERIFIED'' \<or> route_status c = ''PENDING_HITL'' \<or> route_status c = ''REJECTED''"
  by (simp add: route_status_def)

lemma verify_Ok200D:
  assumes "fst (verify rt w engine b) = Ok200 d"
  shows "status d = route_status (confidence d)"
  using assms
  by (auto simp add: verify_def try_block_def Let_def split: if_splits sum.splits prod.splits)

text \<open>
  C10, as the code has it. The status of every successful response is one of the three
  strings VERIFIED, PENDING\_HITL, REJECTED, whatever the final confidence. A confidence
  that is NaN fails both comparisons and gives REJECTED, and so does one below the range
  \<open>[0, 1]\<close>; a confidence above the range passes the first comparison and gives VERIFIED.
\<close>

theorem status_domain:
  assumes "fst (verify rt w engine b) = Ok200 d"
  shows "status d \<in> {''VERIFIED'', ''PENDING_HITL'', ''REJECTED''} \<and>
         status d = route_status (confidence d) \<and>
         (confidence d = NaN \<longrightarrow> status d = ''REJECTED'') \<and>
         (num_lt (confidence d) (Fin 0) \<longrightarrow> status d = ''REJECTED'') \<and>
         (num_gt (confidence d) (Fin 1) \<longrightarrow> status d = ''VERIFIED'')"
proof -
  have s: "status d = route_status (confidence d)"
    using assms by (rule verify_Ok200D)
  have "route_status NaN = ''REJECTED''"
    by (simp add: route_status_def)
  moreover have "num_lt c (Fin 0) \<Longrightarrow> route_status c = ''REJECTED''" for c
    by (cases c) (simp_all add: route_status_def num_lt_def lit_0_85_eq lit_0_6_eq)
  moreover have "num_gt c (Fin 1) \<Longrightarrow> route_status c = ''VERIFIED''" for c
    by (cases c) (simp_all add: route_status_def lit_0_85_eq)
  ultimately show ?thesis
    using route_status_cases [of "confidence d"] by (auto simp add: s)
qed

theorem status_domain_witness:
  "fst (verify example_runtime example_world silent_vision_engine example_body) =
     Ok200 \<lparr> id' = ''4fzyo82mv'', status = ''REJECTED'', confidence = NaN, vision = JObj [],
             logic = JObj [(''logicScore'', JNum (Fin (1 / 2)))],
             timestamp = ''2026-01-01T00:00:00.000Z'' \<rparr> \<and>
   ''REJECTED'' \<in> {''VERIFIED'', ''PENDING_HITL'', ''REJECTED''}"
  using status_domain [OF silent_vision_run] silent_vision_run by simp

text \<open>
  C10 as stated has every ill-formed confidence fall through both comparisons. Two scores of
  \<open>1.5\<close> aggregate to \<open>1.5\<close>, which is out of range, and the status is VERIFIED.
\<close>

theorem out_of_range_confidence_verified:
  "finalConfidence example_runtime
     (JObj [(''confidence'', JNum (Fin (3 / 2)))]) (JObj [(''logicScore'', JNum (Fin (3 / 2)))])
     = Inr (Fin (3 / 2)) \<and>
   num_gt (Fin (3 / 2)) (Fin 1) \<and>
   route_status (Fin (3 / 2)) = ''VERIFIED''"
  by (simp add: finalConfidence_def js_plus_def js_div2_def route_status_def
      lit_0_85_eq rnd_3 rnd_3_halves)


section \<open>Aggregation of the two scores\<close>

lemma num_le_Fin [simp]: "num_le (Fin x) (Fin y) \<longleftrightarrow> x \<le> y"
  by (auto simp add: num_le_def num_ge_def)

lemma num_le_cases:
  "num_le x y \<longleftrightarrow> x \<noteq> NaN \<and> y \<noteq> NaN \<and> \<not> num_gt x y"
  by (auto simp add: num_le_def num_ge_def)

lemma num_gt_NaN_right [simp]: "\<not> num_gt x NaN"
  by (cases x) simp_all

lemma num_gt_PInf_right [simp]: "\<not> num_gt x PInf"
  by (cases x) simp_all

lemma num_gt_NInf_left [simp]: "\<not> num_gt NInf y"
  by (cases y) simp_all

lemma num_div2_mono:
  assumes "num_le x y"
  shows "num_le (num_div2 x) (num_div2 y)"
proof (cases x; cases y)
  fix a b
  assume xy: "x = Fin a" "y = Fin b"
  with assms have "a / 2 \<le> b / 2" by simp
  then show ?thesis using xy by (simp add: rnd_mono)
qed (use assms in \<open>simp_all add: num_le_cases\<close>)

lemma num_add_mono_left:
  assumes "num_le a a'"
  shows "\<not> num_lt (num_add a' b) (num_add a b)"
proof (cases "num_add a b = NaN \<or> num_add a' b = NaN")
  case True
  then show ?thesis by (auto simp add: num_lt_def)
next
  case False
  have "num_le (num_add a b) (num_add a' b)"
  proof (cases a; cases a'; cases b)
    fix x y z
    assume "a = Fin x" "a' = Fin y" "b = Fin z"
    with assms show ?thesis by (simp add: rnd_mono)
  next
    fix x z
    assume *: "a = Fin x" "a' = PInf" "b = Fin z"
    then show ?thesis by (cases "rnd (x + z)") (simp_all add: num_le_cases)
  next
    fix y z
    assume *: "a = NInf" "a' = Fin y" "b = Fin z"
    then show ?thesis by (cases "rnd (y + z)") (simp_all add: num_le_cases)
  qed (use assms False in \<open>simp_all add: num_le_cases\<close>)
  then show ?thesis by (simp add: num_le_cases num_lt_def)
qed

lemma num_add_commute: "num_add a b = num_add b a"
  by (cases a; cases b) (simp_all add: add.commute)

lemma num_add_mono_right:
  assumes "num_le b b'"
  shows "\<not> num_lt (num_add a b') (num_add a b)"
  using num_add_mono_left [OF assms, of a] by (simp add: num_add_commute)

lemma num_div2_NaN [simp]: "num_div2 x = NaN \<longleftrightarrow> x = NaN"
  by (cases x) simp_all

lemma num_div2_not_lt:
  assumes "\<not> num_lt s' s"
  shows "\<not> num_lt (num_div2 s') (num_div2 s)"
proof (cases "s = NaN \<or> s' = NaN")
  case True
  then show ?thesis by (auto simp add: num_lt_def)
next
  case False
  then have "num_le s s'" using assms by (simp add: num_le_cases num_lt_def)
  then have "num_le (num_div2 s) (num_div2 s')" by (rule num_div2_mono)
  then show ?thesis by (simp add: num_le_cases num_lt_def)
qed

lemma rnd_between:
  assumes "0 \<le> x" "x \<le> k" "rnd k = Fin k"
  shows "\<exists>y. rnd x = Fin y \<and> 0 \<le> y \<and> y \<le> k"
proof -
  have "num_le (rnd 0) (rnd x)"
    using assms(1) by (rule rnd_mono)
  moreover have "num_le (rnd x) (rnd k)"
    using assms(2) by (rule rnd_mono)
  ultimately show ?thesis
    using assms(3) by (cases "rnd x") (simp_all add: num_le_cases)
qed

lemma round_magnitude_error:
  assumes "0 < a" "ilog2 a \<le> e" "- 1074 \<le> e - 52"
  shows "\<bar>round_magnitude a - a\<bar> \<le> pow2 (e - 53)"
proof -
  define q where "q = max (ilog2 a - 52) (- 1074)"
  define m where "m = round_half_even (a / pow2 q)"
  have rm: "round_magnitude a = of_int m * pow2 q"
    unfolding m_def using q_def by (rule round_magnitude_eq)
  have half: "1 / 2 * pow2 q = pow2 (q - 1)"
    by (simp add: pow2_diff) (simp add: pow2_def)
  have "\<bar>of_int m * pow2 q - a\<bar> = \<bar>(of_int m - a / pow2 q) * pow2 q\<bar>"
    by (simp add: left_diff_distrib)
  also have "\<dots> = \<bar>of_int m - a / pow2 q\<bar> * pow2 q"
    by (simp add: abs_mult)
  also have "\<dots> \<le> 1 / 2 * pow2 q"
    unfolding m_def by (rule mult_right_mono [OF round_half_even_error]) simp
  also have "\<dots> = pow2 (q - 1)"
    by (rule half)
  also have "\<dots> \<le> pow2 (e - 53)"
    using assms(2,3) by (simp add: q_def)
  finally show ?thesis by (simp only: rm)
qed

lemma rnd_error:
  assumes "0 \<le> x" "x \<le> pow2 (e + 1)" "- 1074 \<le> e - 51" "rnd x = Fin y"
  shows "\<bar>y - x\<bar> \<le> pow2 (e - 52)"
proof (cases "x = 0")
  case True
  then show ?thesis using assms(4) by simp
next
  case False
  then have x: "0 < x" using assms(1) by simp
  have "x < pow2 (e + 2)"
    using assms(2) by (rule le_less_trans) simp
  then have "ilog2 x < e + 2" using x by (intro ilog2_le)
  then have "ilog2 x \<le> e + 1" by simp
  then have "\<bar>round_magnitude x - x\<bar> \<le> pow2 (e + 1 - 53)"
    using x assms(3) by (intro round_magnitude_error) simp_all
  moreover have "y = round_magnitude x"
    using assms(4) x by (simp add: rnd_pos split: if_splits)
  ultimately show ?thesis by simp
qed

lemma finalConfidence_numbers:
  assumes "get_prop v ''confidence'' = Inr (Val (JNum a))"
    and "get_prop l ''logicScore'' = Inr (Val (JNum b))"
  shows "finalConfidence rt v l = Inr (num_div2 (num_add a b))"
  using assms by (simp add: finalConfidence_def js_plus_def js_div2_def)

lemma mean_in_range:
  assumes "0 \<le> x" "x \<le> 1" "0 \<le> y" "y \<le> 1"
  shows "\<exists>c. num_div2 (num_add (Fin x) (Fin y)) = Fin c \<and> 0 \<le> c \<and> c \<le> 1 \<and>
           \<bar>c - (x / 2 + y / 2)\<bar> \<le> 1 / 2 ^ 52"
proof -
  have "0 \<le> x + y" "x + y \<le> 2" using assms by simp_all
  then obtain s where s: "rnd (x + y) = Fin s" "0 \<le> s" "s \<le> 2"
    using rnd_between [of "x + y" 2] rnd_2 by auto
  have "0 \<le> s / 2" "s / 2 \<le> 1" using s by simp_all
  then obtain c where c: "rnd (s / 2) = Fin c" "0 \<le> c" "c \<le> 1"
    using rnd_between [of "s / 2" 1] rnd_1 by auto
  have e1: "\<bar>s - (x + y)\<bar> \<le> pow2 (0 - 52)"
    using \<open>0 \<le> x + y\<close> \<open>x + y \<le> 2\<close> s(1)
    by (intro rnd_error) (simp_all add: pow2_def)
  have e2: "\<bar>c - s / 2\<bar> \<le> pow2 (- 1 - 52)"
    using \<open>0 \<le> s / 2\<close> \<open>s / 2 \<le> 1\<close> c(1)
    by (intro rnd_error) (simp_all add: pow2_def)
  have "c - (x / 2 + y / 2) = (c - s / 2) + (s - (x + y)) / 2"
    by (simp add: field_simps)
  then have "\<bar>c - (x / 2 + y / 2)\<bar> = \<bar>(c - s / 2) + (s - (x + y)) / 2\<bar>"
    by (rule arg_cong)
  also have "\<dots> \<le> \<bar>c - s / 2\<bar> + \<bar>(s - (x + y)) / 2\<bar>"
    by (rule abs_triangle_ineq)
  also have "\<dots> = \<bar>c - s / 2\<bar> + \<bar>s - (x + y)\<bar> / 2"
    by simp
  also have "\<dots> \<le> pow2 (- 1 - 52) + pow2 (0 - 52) / 2"
    using e1 e2 by (intro add_mono divide_right_mono) simp_all
  also have "\<dots> = 1 / 2 ^ 52"
    by (simp add: pow2_def)
  finally have "\<bar>c - (x / 2 + y / 2)\<bar> \<le> 1 / 2 ^ 52" .
  then show ?thesis using s c by simp
qed

text \<open>
  C6. When both engines report a confidence in \<open>[0, 1]\<close>, the aggregation throws nothing
  and its result is a number in \<open>[0, 1]\<close>, the routing gives one of the three statuses, and
  a request that reaches the two results is answered with the decision made of them.
\<close>

theorem final_confidence_in_range:
  assumes "get_prop v ''confidence'' = Inr (Val (JNum a))"
    and "get_prop l ''logicScore'' = Inr (Val (JNum b))"
    and "num_le (Fin 0) a" "num_le a (Fin 1)" "num_le (Fin 0) b" "num_le b (Fin 1)"
  shows "\<exists>c. finalConfidence rt v l = Inr c \<and> num_le (Fin 0) c \<and> num_le c (Fin 1) \<and>
           route_status c \<in> {''VERIFIED'', ''PENDING_HITL'', ''REJECTED''} \<and>
           (\<not> key_missing w \<and> vision_request rt bd = Inr c1 \<and> engine c1 = Parses v \<and>
            engine (LogicCall (contextData bd) v) = Parses l \<longrightarrow>
              fst (verify rt w engine bd) =
                Ok200 \<lparr> id' = take 9 (drop 2 (random36 w)), status = route_status c,
                        confidence = c, vision = v, logic = l, timestamp = now_iso w \<rparr>)"
proof -
  obtain x where x: "a = Fin x" "0 \<le> x" "x \<le> 1"
    using assms(3,4) by (cases a) (simp_all add: num_le_cases)
  obtain y where y: "b = Fin y" "0 \<le> y" "y \<le> 1"
    using assms(5,6) by (cases b) (simp_all add: num_le_cases)
  obtain c where c: "num_div2 (num_add (Fin x) (Fin y)) = Fin c" "0 \<le> c" "c \<le> 1"
    using mean_in_range [OF x(2,3) y(2,3)] by blast
  have f: "finalConfidence rt v l = Inr (Fin c)"
    using finalConfidence_numbers [OF assms(1,2)] x(1) y(1) c(1) by simp
  have "route_status (Fin c) \<in> {''VERIFIED'', ''PENDING_HITL'', ''REJECTED''}"
    using route_status_cases [of "Fin c"] by auto
  moreover have "fst (verify rt w engine bd) =
      Ok200 \<lparr> id' = take 9 (drop 2 (random36 w)), status = route_status (Fin c),
              confidence = Fin c, vision = v, logic = l, timestamp = now_iso w \<rparr>"
    if "\<not> key_missing w" "vision_request rt bd = Inr c1" "engine c1 = Parses v"
      "engine (LogicCall (contextData bd) v) = Parses l"
    using that f by (simp add: verify_def try_block_def Let_def)
  ultimately show ?thesis using f c(2,3) by auto
qed

theorem final_confidence_in_range_witness:
  "get_prop clean_vision ''confidence'' = Inr (Val (JNum (Fin (1 / 2)))) \<and>
   get_prop half_logic ''logicScore'' = Inr (Val (JNum (Fin (1 / 2)))) \<and>
   num_le (Fin 0) (Fin (1 / 2)) \<and> num_le (Fin (1 / 2)) (Fin 1) \<and>
   (\<exists>c. finalConfidence example_runtime clean_vision half_logic = Inr c \<and>
        num_le (Fin 0) c \<and> num_le c (Fin 1) \<and>
        route_status c \<in> {''VERIFIED'', ''PENDING_HITL'', ''REJECTED''})"
proof -
  have v: "get_prop clean_vision ''confidence'' = Inr (Val (JNum (Fin (1 / 2))))"
    by (simp add: clean_vision_def)
  have l: "get_prop half_logic ''logicScore'' = Inr (Val (JNum (Fin (1 / 2))))"
    by (simp add: half_logic_def)
  have r: "num_le (Fin 0) (Fin (1 / 2))" "num_le (Fin (1 / 2)) (Fin 1)"
    by simp_all
  from final_confidence_in_range [OF v l r r, of example_runtime] v l r
  show ?thesis by blast
qed

text \<open>
  C7. With numeric scores, raising the vision confidence with the logic score fixed, or the
  logic score with the vision confidence fixed, never lowers the final confidence: the new
  value is not less than the old one, and it is at least the old one whenever both are
  numbers. The final confidence reads nothing but the two scores, so results that differ
  in their descriptors only, whatever the count of high-severity ones, aggregate to the same
  value: more anomalies never raise it.
\<close>

theorem aggregation_monotone:
  assumes "get_prop v ''confidence'' = Inr (Val (JNum a))"
    and "get_prop v' ''confidence'' = Inr (Val (JNum a'))"
    and "get_prop l ''logicScore'' = Inr (Val (JNum b))"
    and "get_prop l' ''logicScore'' = Inr (Val (JNum b'))"
  shows "\<exists>c. finalConfidence rt v l = Inr c \<and>
     (num_le a a' \<longrightarrow>
        (\<exists>c'. finalConfidence rt v' l = Inr c' \<and> \<not> num_lt c' c \<and>
              (c \<noteq> NaN \<and> c' \<noteq> NaN \<longrightarrow> num_le c c'))) \<and>
     (num_le b b' \<longrightarrow>
        (\<exists>c'. finalConfidence rt v l' = Inr c' \<and> \<not> num_lt c' c \<and>
              (c \<noteq> NaN \<and> c' \<noteq> NaN \<longrightarrow> num_le c c'))) \<and>
     (a' = a \<and> b' = b \<and> high_severity_count v l \<le> high_severity_count v' l' \<longrightarrow>
        finalConfidence rt v' l' = Inr c \<and> \<not> num_gt c c)"
proof -
  let ?c = "num_div2 (num_add a b)"
  have f: "finalConfidence rt v l = Inr ?c"
    using assms(1,3) by (rule finalConfidence_numbers)
  have f1: "finalConfidence rt v' l = Inr (num_div2 (num_add a' b))"
    using assms(2,3) by (rule finalConfidence_numbers)
  have f2: "finalConfidence rt v l' = Inr (num_div2 (num_add a b'))"
    using assms(1,4) by (rule finalConfidence_numbers)
  have f3: "finalConfidence rt v' l' = Inr (num_div2 (num_add a' b'))"
    using assms(2,4) by (rule finalConfidence_numbers)
  have m1: "\<not> num_lt (num_div2 (num_add a' b)) ?c" if "num_le a a'"
    using that by (intro num_div2_not_lt num_add_mono_left)
  have m2: "\<not> num_lt (num_div2 (num_add a b')) ?c" if "num_le b b'"
    using that by (intro num_div2_not_lt num_add_mono_right)
  have le: "num_le x y" if "\<not> num_lt y x" "x \<noteq> NaN" "y \<noteq> NaN" for x y
    using that by (simp add: num_le_cases num_lt_def)
  show ?thesis
    using f f1 f2 f3 m1 m2 le by auto
qed

theorem aggregation_monotone_witness:
  "get_prop clean_vision ''confidence'' = Inr (Val (JNum (Fin (1 / 2)))) \<and>
   get_prop better_vision ''confidence'' = Inr (Val (JNum (Fin (3 / 4)))) \<and>
   get_prop flagged_vision ''confidence'' = Inr (Val (JNum (Fin (1 / 2)))) \<and>
   get_prop half_logic ''logicScore'' = Inr (Val (JNum (Fin (1 / 2)))) \<and>
   num_le (Fin (1 / 2)) (Fin (3 / 4)) \<and>
   high_severity_count clean_vision half_logic \<le> high_severity_count flagged_vision half_logic \<and>
   (\<exists>c c'. finalConfidence example_runtime clean_vision half_logic = Inr c \<and>
      finalConfidence example_runtime better_vision half_logic = Inr c' \<and>
      \<not> num_lt c' c \<and>
      finalConfidence example_runtime flagged_vision half_logic = Inr c)"
proof -
  have v: "get_prop clean_vision ''confidence'' = Inr (Val (JNum (Fin (1 / 2))))"
    by (simp add: clean_vision_def)
  have v': "get_prop better_vision ''confidence'' = Inr (Val (JNum (Fin (3 / 4))))"
    by (simp add: better_vision_def)
  have v'': "get_prop flagged_vision ''confidence'' = Inr (Val (JNum (Fin (1 / 2))))"
    by (simp add: flagged_vision_def)
  have l: "get_prop half_logic ''logicScore'' = Inr (Val (JNum (Fin (1 / 2))))"
    by (simp add: half_logic_def)
  have o: "num_le (Fin (1 / 2)) (Fin (3 / 4))"
    by simp
  have h: "high_severity_count clean_vision half_logic
             \<le> high_severity_count flagged_vision half_logic"
    by (simp add: high_severity_count_def descriptors_def high_severity_def
        clean_vision_def flagged_vision_def half_logic_def)
  from aggregation_monotone [OF v v' l l, of example_runtime]
    aggregation_monotone [OF v v'' l l, of example_runtime] v v' v'' l o h
  show ?thesis by auto
qed

text \<open>
  C4, as the code has it. There are two signals, vision and logic, and two fixed weights:
  with both scores numbers, the final confidence is their binary64 sum divided by two, which
  for scores in \<open>[0, 1]\<close> lies within \<open>2 ^ - 52\<close> of the exact mean. Nothing is renormalised:
  a missing score is read as \<open>undefined\<close> and the final confidence is NaN.
\<close>

theorem final_confidence_is_plain_mean:
  "(get_prop v ''confidence'' = Inr (Val (JNum a)) \<and>
    get_prop l ''logicScore'' = Inr (Val (JNum b)) \<longrightarrow>
      finalConfidence rt v l = Inr (num_div2 (num_add a b))) \<and>
   (get_prop v ''confidence'' = Inr (Val (JNum (Fin x))) \<and>
    get_prop l ''logicScore'' = Inr (Val (JNum (Fin y))) \<and>
    0 \<le> x \<and> x \<le> 1 \<and> 0 \<le> y \<and> y \<le> 1 \<longrightarrow>
      (\<exists>c. finalConfidence rt v l = Inr (Fin c) \<and> \<bar>c - (x / 2 + y / 2)\<bar> \<le> 1 / 2 ^ 52)) \<and>
   (get_prop v ''confidence'' = Inr Undefined \<and>
    (get_prop l ''logicScore'' = Inr (Val (JNum b)) \<or> get_prop l ''logicScore'' = Inr Undefined)
      \<longrightarrow> finalConfidence rt v l = Inr NaN) \<and>
   (get_prop l ''logicScore'' = Inr Undefined \<and>
    (get_prop v ''confidence'' = Inr (Val (JNum a)) \<or> get_prop v ''confidence'' = Inr Undefined)
      \<longrightarrow> finalConfidence rt v l = Inr NaN)"
proof -
  have "\<exists>c. finalConfidence rt v l = Inr (Fin c) \<and> \<bar>c - (x / 2 + y / 2)\<bar> \<le> 1 / 2 ^ 52"
    if "get_prop v ''confidence'' = Inr (Val (JNum (Fin x)))"
      "get_prop l ''logicScore'' = Inr (Val (JNum (Fin y)))"
      "0 \<le> x" "x \<le> 1" "0 \<le> y" "y \<le> 1"
    using finalConfidence_numbers [OF that(1,2), of rt] mean_in_range [OF that(3-6)]
    by auto
  then show ?thesis
    using finalConfidence_numbers [of v a l b rt]
      finalConfidence_missing_left [of v l b rt] finalConfidence_missing_right [of v a l rt]
    by blast
qed

theorem final_confidence_is_plain_mean_witness:
  "get_prop clean_vision ''confidence'' = Inr (Val (JNum (Fin (1 / 2)))) \<and>
   get_prop half_logic ''logicScore'' = Inr (Val (JNum (Fin (1 / 2)))) \<and>
   (\<exists>c. finalConfidence example_runtime clean_vision half_logic = Inr (Fin c) \<and>
        \<bar>c - (1 / 2 / 2 + 1 / 2 / 2)\<bar> \<le> 1 / 2 ^ 52) \<and>
   get_prop (JObj []) ''logicScore'' = Inr Undefined \<and>
   finalConfidence example_runtime clean_vision (JObj []) = Inr NaN"
proof -
  have v: "get_prop clean_vision ''confidence'' = Inr (Val (JNum (Fin (1 / 2))))"
    by (simp add: clean_vision_def)
  have l: "get_prop half_logic ''logicScore'' = Inr (Val (JNum (Fin (1 / 2))))"
    by (simp add: half_logic_def)
  have u: "get_prop (JObj []) ''logicScore'' = Inr Undefined"
    by simp
  have r: "(0::rat) \<le> 1 / 2" "(1::rat) / 2 \<le> 1"
    by simp_all
  from final_confidence_is_plain_mean [of clean_vision "Fin (1 / 2)" half_logic "Fin (1 / 2)"
      example_runtime "1 / 2" "1 / 2"]
    final_confidence_is_plain_mean [of clean_vision "Fin (1 / 2)" "JObj []" "Fin (1 / 2)"
      example_runtime "1 / 2" "1 / 2"] v l u r
  show ?thesis by blast
qed

text \<open>
  C4 as stated has a missing signal left out and the weights of the others renormalised:
  with a vision confidence of \<open>0.5\<close> and no logic score the result would be \<open>0.5\<close>. It is
  NaN.
\<close>

theorem missing_signal_gives_NaN:
  "finalConfidence example_runtime (JObj [(''confidence'', JNum (Fin (1 / 2)))]) (JObj [])
     = Inr NaN \<and>
   finalConfidence example_runtime (JObj [(''confidence'', JNum (Fin (1 / 2)))]) (JObj [])
     \<noteq> Inr (Fin (1 / 2))"
  by (simp add: finalConfidence_def js_plus_def js_div2_def)

end
